theory Spec2Isabelle
  imports Main "HOL-Library.Finite_Map" "HOL-Library.Sublist"
begin

text \<open>
  \<open>FactoryContainer\<close> is a dependency-injection container: a registry that maps the
  identity of an interface to a recipe for an instance, and a recursive resolver that
  builds an object together with its dependencies and detects dependency cycles with
  a list of the interfaces being resolved. This theory embeds the class in HOL and
  proves the properties that its specification states about it.
\<close>

section \<open>Data model of \<open>FactoryContainer.hpp\<close>\<close>

text \<open>
  A \<open>std::type_index\<close> is an opaque token that is compared for equality and used as a
  key; it is modelled by the name of the type it was taken from.
\<close>

type_synonym type_index = string

type_synonym type_list = "type_index list"

text \<open>
  A \<open>std::shared_ptr\<close> is either \<open>nullptr\<close> or points at an object. Objects live in a
  heap that only grows (an address stands for the identity of an object, and the model
  never reuses one), so \<open>Ptr a\<close> is the \<open>a\<close>-th object ever created. Of an object the
  model keeps its dynamic type and the handles its constructor received.
\<close>

datatype handle = Null | Ptr nat

record obj =
  dyn_type :: string
  ctor_args :: "handle list"

text \<open>
  The concrete implementation \<open>T\<close> of \<open>RegisterType<I, T, Arguments...>\<close> is code of the
  application. The container only calls its constructor, which either completes or
  throws; whether it throws may depend on the handles it receives and on the objects
  that exist at that moment. A constructor that throws is the only source of an
  exception in the model; running out of memory is not modelled. A constructor can
  also call the container that is constructing its object. The resolver of the next
  sections is the one for constructors that make no such call; the section on
  constructors that call the container takes them up.
\<close>

datatype impl = Impl (type_name: string) (ctor_throws: "obj list \<Rightarrow> handle list \<Rightarrow> bool")

datatype error = ConstructorThrew string

text \<open>
  \<open>factory_value\<close> is a \<open>std::function\<close> holding one of the two lambdas the class
  creates (\<open>RegisterFactory\<close> is private, so there is no third kind): the one of
  \<open>RegisterType\<close>, determined by \<open>T\<close> and the pack \<open>Arguments...\<close>, and the one of
  \<open>RegisterInstance\<close>, determined by the captured \<open>pInstance\<close>.
\<close>

datatype factory_value =
    TypeFactory impl "type_index list"
  | InstanceFactory handle

record FactoryContainer =
  m_factoryList :: "(type_index, factory_value) fmap"

text \<open>
  What a resolve reads and writes: the container \<open>*this\<close>, the vector that the
  \<open>type_list*\<close> parameter points to, and the heap of objects made by \<open>std::make_shared\<close>.
\<close>

record memory =
  container :: FactoryContainer
  ancestor_list :: type_list
  heap :: "obj list"

text \<open>
  \<open>std::make_shared<T>(this->Resolve<Arguments>(ancestor_list)...)\<close> is a function call
  whose arguments are the nested resolves. The pack expansion fixes which argument
  goes to which position. The order in which the arguments are evaluated is left to
  the implementation by C++ (unspecified up to C++14, indeterminately sequenced since
  C++17; in both cases two calls among the arguments do not overlap). The model has
  the two orders that compilers implement, and the order is a parameter of the
  resolver.
\<close>

datatype arg_order = LeftToRight | RightToLeft

fun in_eval_order :: "arg_order \<Rightarrow> 'a list \<Rightarrow> 'a list" where
  "in_eval_order LeftToRight xs = xs"
| "in_eval_order RightToLeft xs = rev xs"

section \<open>Registry operations\<close>

text \<open>
  The template arguments \<open>I\<close>, \<open>T\<close> and \<open>Arguments...\<close> become ordinary arguments. The
  \<open>static_assert\<close> of \<open>RegisterType\<close> is checked by the compiler and has no counterpart
  at run time. \<open>RegisterFactory\<close> unregisters the key before it stores the recipe, as
  the source does.
\<close>

definition FactoryContainer_new :: FactoryContainer where
  "FactoryContainer_new = \<lparr>m_factoryList = fmempty\<rparr>"

definition Unregister :: "type_index \<Rightarrow> FactoryContainer \<Rightarrow> FactoryContainer" where
  "Unregister key c =
     (if key |\<in>| fmdom (m_factoryList c)
      then c\<lparr>m_factoryList := fmdrop key (m_factoryList c)\<rparr>
      else c)"

definition RegisterFactory ::
  "type_index \<Rightarrow> factory_value \<Rightarrow> FactoryContainer \<Rightarrow> FactoryContainer" where
  "RegisterFactory key tFactory c =
     (let c' = Unregister key c
      in c'\<lparr>m_factoryList := fmupd key tFactory (m_factoryList c')\<rparr>)"

definition RegisterType ::
  "type_index \<Rightarrow> impl \<Rightarrow> type_index list \<Rightarrow> FactoryContainer \<Rightarrow> FactoryContainer" where
  "RegisterType I T Arguments c = RegisterFactory I (TypeFactory T Arguments) c"

definition RegisterInstance ::
  "type_index \<Rightarrow> handle \<Rightarrow> FactoryContainer \<Rightarrow> FactoryContainer" where
  "RegisterInstance I pInstance c = RegisterFactory I (InstanceFactory pInstance) c"

section \<open>The resolver\<close>

text \<open>
  \<open>std::make_shared<T>(args...)\<close>: the constructor of \<open>T\<close> runs on the handles; when it
  throws, no object is created and the exception leaves the call.
\<close>

definition make_shared :: "impl \<Rightarrow> handle list \<Rightarrow> memory \<Rightarrow> (error + handle) \<times> memory" where
  "make_shared T args s =
     (if ctor_throws T (heap s) args then (Inl (ConstructorThrew (type_name T)), s)
      else (Inr (Ptr (length (heap s))),
            s\<lparr>heap := heap s @ [\<lparr>dyn_type = type_name T, ctor_args = args\<rparr>]\<rparr>))"

text \<open>The cast changes the static type of the handle, not the object it points at.\<close>

definition static_pointer_cast :: "handle \<Rightarrow> handle" where
  "static_pointer_cast pObj = pObj"

text \<open>
  \<open>resolve\<close> is the private \<open>Resolve<I>(type_list*)\<close>, \<open>call_factory\<close> is the call
  \<open>it->second(ancestor_list)\<close> of a stored lambda, and \<open>resolve_pack\<close> is the expansion
  of \<open>this->Resolve<Arguments>(ancestor_list)...\<close> over the dependencies in the order
  in which they are evaluated. An exception (\<open>Inl\<close>) leaves each function at once, so
  the \<open>pop_back\<close> after a throwing factory is not executed.
\<close>

function resolve :: "arg_order \<Rightarrow> type_index \<Rightarrow> memory \<Rightarrow> (error + handle) \<times> memory"
  and call_factory :: "arg_order \<Rightarrow> factory_value \<Rightarrow> memory \<Rightarrow> (error + handle) \<times> memory"
  and resolve_pack ::
    "arg_order \<Rightarrow> type_index list \<Rightarrow> memory \<Rightarrow> (error + handle list) \<times> memory"
where
  "resolve ord key s =
     (case fmlookup (m_factoryList (container s)) key of
        None \<Rightarrow> (Inr Null, s)
      | Some factory \<Rightarrow>
          if key \<in> set (ancestor_list s) then (Inr Null, s)
          else (case call_factory ord factory (s\<lparr>ancestor_list := ancestor_list s @ [key]\<rparr>) of
                  (Inl e, s') \<Rightarrow> (Inl e, s')
                | (Inr pObj, s') \<Rightarrow>
                    (Inr (static_pointer_cast pObj),
                     s'\<lparr>ancestor_list := butlast (ancestor_list s')\<rparr>)))"
| "call_factory ord (InstanceFactory pInstance) s = (Inr pInstance, s)"
| "call_factory ord (TypeFactory T Arguments) s =
     (case resolve_pack ord (in_eval_order ord Arguments) s of
        (Inl e, s') \<Rightarrow> (Inl e, s')
      | (Inr ps, s') \<Rightarrow> make_shared T (in_eval_order ord ps) s')"
| "resolve_pack ord [] s = (Inr [], s)"
| "resolve_pack ord (D # Ds) s =
     (case resolve ord D s of
        (Inl e, s') \<Rightarrow> (Inl e, s')
      | (Inr p, s') \<Rightarrow>
          (case resolve_pack ord Ds s' of
             (Inl e, s'') \<Rightarrow> (Inl e, s'')
           | (Inr ps, s'') \<Rightarrow> (Inr (p # ps), s'')))"
  by pat_completeness auto

text \<open>
  Termination. Every call of a factory follows a push of a registered key that was not
  on the ancestor list, so the number of registered keys that are not on the list
  decreases. The argument of the second call in \<open>resolve_pack\<close> is the memory the first
  call returned; that a call which returns normally leaves container and ancestor list
  as they were is therefore proved first, on the domain of the functions.
\<close>

definition unvisited :: "memory \<Rightarrow> nat" where
  "unvisited s = card (fset (fmdom (m_factoryList (container s))) - set (ancestor_list s))"

lemma make_shared_frame [simp]:
  "container (snd (make_shared T args s)) = container s"
  "ancestor_list (snd (make_shared T args s)) = ancestor_list s"
  by (simp_all add: make_shared_def)

lemma frame_partial:
  "resolve_call_factory_resolve_pack_dom (Inl (ord, key, s)) \<Longrightarrow>
     container (snd (resolve ord key s)) = container s \<and>
     (\<forall>p. fst (resolve ord key s) = Inr p \<longrightarrow>
          ancestor_list (snd (resolve ord key s)) = ancestor_list s)"
  "resolve_call_factory_resolve_pack_dom (Inr (Inl (ord, factory, s))) \<Longrightarrow>
     container (snd (call_factory ord factory s)) = container s \<and>
     (\<forall>p. fst (call_factory ord factory s) = Inr p \<longrightarrow>
          ancestor_list (snd (call_factory ord factory s)) = ancestor_list s)"
  "resolve_call_factory_resolve_pack_dom (Inr (Inr (ord, Ds, s))) \<Longrightarrow>
     container (snd (resolve_pack ord Ds s)) = container s \<and>
     (\<forall>ps. fst (resolve_pack ord Ds s) = Inr ps \<longrightarrow>
          ancestor_list (snd (resolve_pack ord Ds s)) = ancestor_list s)"
proof (induct rule: resolve_call_factory_resolve_pack.pinduct)
  case (1 ord key s)
  then show ?case
    by (auto simp: resolve.psimps split: option.splits prod.splits sum.splits)
next
  case (2 ord pInstance s)
  then show ?case by (simp add: call_factory.psimps)
next
  case (3 ord T Arguments s)
  then show ?case
    by (auto simp: call_factory.psimps split: prod.splits sum.splits)
next
  case (4 ord s)
  then show ?case by (simp add: resolve_pack.psimps)
next
  case (5 ord D Ds s)
  then show ?case
    by (auto simp: resolve_pack.psimps split: prod.splits sum.splits)
qed

lemma unvisited_push:
  "fmlookup (m_factoryList (container s)) key = Some f \<Longrightarrow> key \<notin> set (ancestor_list s) \<Longrightarrow>
   unvisited (s\<lparr>ancestor_list := ancestor_list s @ [key]\<rparr>) < unvisited s"
  unfolding unvisited_def
  by (auto intro!: psubset_card_mono dest: fmdomI)

termination resolve
proof (relation "measures
    [\<lambda>x. case x of Inl (_, _, s) \<Rightarrow> unvisited s
              | Inr (Inl (_, _, s)) \<Rightarrow> unvisited s
              | Inr (Inr (_, _, s)) \<Rightarrow> unvisited s,
     \<lambda>x. case x of Inl _ \<Rightarrow> 0
              | Inr (Inl (_, f, _)) \<Rightarrow> (case f of TypeFactory _ Ds \<Rightarrow> length Ds + 2 | _ \<Rightarrow> 0)
              | Inr (Inr (_, Ds, _)) \<Rightarrow> length Ds + 1]", goal_cases)
  case 1
  then show ?case by simp
next
  case (2 ord key s f)
  then show ?case by (simp add: unvisited_push)
next
  case (3 ord T Arguments s)
  then show ?case by (cases ord) simp_all
next
  case (4 ord D Ds s)
  then show ?case by simp
next
  case (5 ord D Ds s x y b)
  then have "resolve ord D s = (Inr b, y)" by simp
  with frame_partial(1)[OF 5(3)] show ?case
    by (simp add: unvisited_def)
qed

declare resolve.simps [simp del]

text \<open>
  The public \<open>Resolve<I>()\<close>: a fresh, empty ancestor list, local to the call. The result
  is the handle (or the exception), the container and the heap after the call.
\<close>

definition Resolve ::
  "arg_order \<Rightarrow> type_index \<Rightarrow> FactoryContainer \<Rightarrow> obj list
     \<Rightarrow> (error + handle) \<times> FactoryContainer \<times> obj list" where
  "Resolve ord I c h =
     (case resolve ord I \<lparr>container = c, ancestor_list = [], heap = h\<rparr> of
        (r, s') \<Rightarrow> (r, container s', heap s'))"

section \<open>Constructors that call the container\<close>










section \<open>Programs and registries the properties speak about\<close>

text \<open>A sequence of registrations and unregistrations, as an application performs it.\<close>

datatype operation =
    OpRegisterType type_index impl "type_index list"
  | OpRegisterInstance type_index handle
  | OpUnregister type_index

fun apply_operation :: "operation \<Rightarrow> FactoryContainer \<Rightarrow> FactoryContainer" where
  "apply_operation (OpRegisterType I T Arguments) c = RegisterType I T Arguments c"
| "apply_operation (OpRegisterInstance I pInstance) c = RegisterInstance I pInstance c"
| "apply_operation (OpUnregister I) c = Unregister I c"

fun run :: "operation list \<Rightarrow> FactoryContainer \<Rightarrow> FactoryContainer" where
  "run [] c = c"
| "run (op # ops) c = run ops (apply_operation op c)"

fun op_key :: "operation \<Rightarrow> type_index" where
  "op_key (OpRegisterType I T Arguments) = I"
| "op_key (OpRegisterInstance I pInstance) = I"
| "op_key (OpUnregister I) = I"

fun is_unregister :: "operation \<Rightarrow> bool" where
  "is_unregister (OpUnregister I) = True"
| "is_unregister _ = False"

text \<open>
  No operation of the sequence touches \<open>I\<close>, or the last one that does is an
  \<open>Unregister\<close>.
\<close>

definition unregistered_last :: "type_index \<Rightarrow> operation list \<Rightarrow> bool" where
  "unregistered_last I ops =
     (case filter (\<lambda>op. op_key op = I) ops of
        [] \<Rightarrow> True
      | x # xs \<Rightarrow> is_unregister (last (x # xs)))"



text \<open>No constructor of a registered implementation throws.\<close>

definition never_throws :: "impl \<Rightarrow> bool" where
  "never_throws T = (\<forall>h args. \<not> ctor_throws T h args)"

definition no_throw :: "FactoryContainer \<Rightarrow> bool" where
  "no_throw c =
     (\<forall>I T Arguments. fmlookup (m_factoryList c) I = Some (TypeFactory T Arguments)
         \<longrightarrow> never_throws T)"

text \<open>
  The place of the \<open>i\<close>-th of \<open>n\<close> arguments in the sequence in which the arguments are
  evaluated.
\<close>

fun eval_slot :: "arg_order \<Rightarrow> nat \<Rightarrow> nat \<Rightarrow> nat" where
  "eval_slot LeftToRight n i = i"
| "eval_slot RightToLeft n i = n - 1 - i"

text \<open>
  Object \<open>x\<close> was built by the recipe of some type binding of the container, and wherever
  that binding declares the dependency \<open>I\<close>, the constructor received the handle \<open>h\<close>.
\<close>

definition injected :: "FactoryContainer \<Rightarrow> type_index \<Rightarrow> handle \<Rightarrow> obj \<Rightarrow> bool" where
  "injected c I h x =
     (\<exists>K T Arguments.
        fmlookup (m_factoryList c) K = Some (TypeFactory T Arguments) \<and>
        dyn_type x = type_name T \<and>
        length (ctor_args x) = length Arguments \<and>
        (\<forall>i<length Arguments. Arguments ! i = I \<longrightarrow> ctor_args x ! i = h))"

section \<open>Reasoning about the resolver\<close>

text \<open>
  The ways in which each of the three functions produces its result, first as case
  analyses and then as one induction rule over the calls and their results.
\<close>

lemma resolve_cases:
  assumes "resolve ord key s = (r, s')"
  obtains
    (unregistered) "fmlookup (m_factoryList (container s)) key = None" "r = Inr Null" "s' = s"
  | (cycle) factory where "fmlookup (m_factoryList (container s)) key = Some factory"
      "key \<in> set (ancestor_list s)" "r = Inr Null" "s' = s"
  | (threw) factory e where "fmlookup (m_factoryList (container s)) key = Some factory"
      "key \<notin> set (ancestor_list s)"
      "call_factory ord factory (s\<lparr>ancestor_list := ancestor_list s @ [key]\<rparr>) = (Inl e, s')"
      "r = Inl e"
  | (returned) factory pObj s1 where "fmlookup (m_factoryList (container s)) key = Some factory"
      "key \<notin> set (ancestor_list s)"
      "call_factory ord factory (s\<lparr>ancestor_list := ancestor_list s @ [key]\<rparr>) = (Inr pObj, s1)"
      "r = Inr pObj" "s' = s1\<lparr>ancestor_list := butlast (ancestor_list s1)\<rparr>"
  using assms
  by (subst (asm) resolve.simps)
     (auto simp: static_pointer_cast_def split: option.splits prod.splits sum.splits if_splits)

lemma type_factory_cases:
  assumes "call_factory ord (TypeFactory T Arguments) s = (r, s')"
  obtains
    (dep_threw) e where "resolve_pack ord (in_eval_order ord Arguments) s = (Inl e, s')" "r = Inl e"
  | (constructed) ps s1 where "resolve_pack ord (in_eval_order ord Arguments) s = (Inr ps, s1)"
      "make_shared T (in_eval_order ord ps) s1 = (r, s')"
  using assms by (auto split: prod.splits sum.splits)

lemma resolve_pack_cases:
  assumes "resolve_pack ord (D # Ds) s = (rs, s')"
  obtains
    (first_threw) e where "resolve ord D s = (Inl e, s')" "rs = Inl e"
  | (rest_threw) p s1 e where "resolve ord D s = (Inr p, s1)"
      "resolve_pack ord Ds s1 = (Inl e, s')" "rs = Inl e"
  | (returned) p s1 ps where "resolve ord D s = (Inr p, s1)"
      "resolve_pack ord Ds s1 = (Inr ps, s')" "rs = Inr (p # ps)"
  using assms by (auto split: prod.splits sum.splits)

lemma resolve_results_cases:
  assumes unregistered: "\<And>ord key s.
      fmlookup (m_factoryList (container s)) key = None \<Longrightarrow> P ord key s (Inr Null) s"
    and cycle: "\<And>ord key s factory.
      fmlookup (m_factoryList (container s)) key = Some factory \<Longrightarrow>
      key \<in> set (ancestor_list s) \<Longrightarrow> P ord key s (Inr Null) s"
    and threw: "\<And>ord key s factory e s'.
      fmlookup (m_factoryList (container s)) key = Some factory \<Longrightarrow>
      key \<notin> set (ancestor_list s) \<Longrightarrow>
      call_factory ord factory (s\<lparr>ancestor_list := ancestor_list s @ [key]\<rparr>) = (Inl e, s') \<Longrightarrow>
      Q ord factory (s\<lparr>ancestor_list := ancestor_list s @ [key]\<rparr>) (Inl e) s' \<Longrightarrow>
      P ord key s (Inl e) s'"
    and returned: "\<And>ord key s factory pObj s1.
      fmlookup (m_factoryList (container s)) key = Some factory \<Longrightarrow>
      key \<notin> set (ancestor_list s) \<Longrightarrow>
      call_factory ord factory (s\<lparr>ancestor_list := ancestor_list s @ [key]\<rparr>) = (Inr pObj, s1) \<Longrightarrow>
      Q ord factory (s\<lparr>ancestor_list := ancestor_list s @ [key]\<rparr>) (Inr pObj) s1 \<Longrightarrow>
      P ord key s (Inr pObj) (s1\<lparr>ancestor_list := butlast (ancestor_list s1)\<rparr>)"
    and inst: "\<And>ord pInstance s. Q ord (InstanceFactory pInstance) s (Inr pInstance) s"
    and dep_threw: "\<And>ord T Arguments s e s'.
      resolve_pack ord (in_eval_order ord Arguments) s = (Inl e, s') \<Longrightarrow>
      R ord (in_eval_order ord Arguments) s (Inl e) s' \<Longrightarrow>
      Q ord (TypeFactory T Arguments) s (Inl e) s'"
    and constructed: "\<And>ord T Arguments s ps s1 r s'.
      resolve_pack ord (in_eval_order ord Arguments) s = (Inr ps, s1) \<Longrightarrow>
      R ord (in_eval_order ord Arguments) s (Inr ps) s1 \<Longrightarrow>
      make_shared T (in_eval_order ord ps) s1 = (r, s') \<Longrightarrow>
      Q ord (TypeFactory T Arguments) s r s'"
    and nil: "\<And>ord s. R ord [] s (Inr []) s"
    and first_threw: "\<And>ord D Ds s e s'.
      resolve ord D s = (Inl e, s') \<Longrightarrow> P ord D s (Inl e) s' \<Longrightarrow>
      R ord (D # Ds) s (Inl e) s'"
    and rest_threw: "\<And>ord D Ds s p s1 e s'.
      resolve ord D s = (Inr p, s1) \<Longrightarrow> P ord D s (Inr p) s1 \<Longrightarrow>
      resolve_pack ord Ds s1 = (Inl e, s') \<Longrightarrow> R ord Ds s1 (Inl e) s' \<Longrightarrow>
      R ord (D # Ds) s (Inl e) s'"
    and all_returned: "\<And>ord D Ds s p s1 ps s'.
      resolve ord D s = (Inr p, s1) \<Longrightarrow> P ord D s (Inr p) s1 \<Longrightarrow>
      resolve_pack ord Ds s1 = (Inr ps, s') \<Longrightarrow> R ord Ds s1 (Inr ps) s' \<Longrightarrow>
      R ord (D # Ds) s (Inr (p # ps)) s'"
  shows "resolve ord key s = (r, s') \<Longrightarrow> P ord key s r s'"
    and "call_factory ord factory s = (r, s') \<Longrightarrow> Q ord factory s r s'"
    and "resolve_pack ord Ds s = (rs, s') \<Longrightarrow> R ord Ds s rs s'"
proof (induct ord key s and ord factory s and ord Ds s arbitrary: r s' and r s' and rs s'
       rule: resolve_call_factory_resolve_pack.induct)
  case (1 ord key s)
  from 1(2) show ?case
  proof (cases rule: resolve_cases)
    case unregistered
    then show ?thesis using assms(1) by simp
  next
    case (cycle factory)
    then show ?thesis using assms(2) by simp
  next
    case (threw factory e)
    then show ?thesis using assms(3) 1(1) by simp
  next
    case (returned factory pObj s1)
    then show ?thesis using assms(4) 1(1) by simp
  qed
next
  case (2 ord pInstance s)
  then show ?case using inst by auto
next
  case (3 ord T Arguments s)
  from 3(2) show ?case
  proof (cases rule: type_factory_cases)
    case (dep_threw e)
    then show ?thesis using assms(6) 3(1) by simp
  next
    case (constructed ps s1)
    then show ?thesis using assms(7) 3(1) by simp
  qed
next
  case (4 ord s)
  then show ?case using nil by auto
next
  case (5 ord D Ds s)
  from 5(3) show ?case
  proof (cases rule: resolve_pack_cases)
    case (first_threw e)
    then show ?thesis using assms(9) 5(1) by simp
  next
    case (rest_threw p s1 e)
    then show ?thesis using assms(10) 5(1)[of "Inr p" s1] 5(2)[of "Inr p" s1 p "Inl e" s'] by simp
  next
    case (returned p s1 ps)
    then show ?thesis
      using assms(11) 5(1)[of "Inr p" s1] 5(2)[of "Inr p" s1 p "Inr ps" s'] by simp
  qed
qed

lemmas resolve_results_induct [consumes 1, case_names unregistered cycle threw returned
    inst dep_threw constructed nil first_threw rest_threw all_returned] =
  resolve_results_cases [rotated -1]

lemma container_unchanged:
  "resolve ord key s = (r, s') \<Longrightarrow> container s' = container s"
  "call_factory ord factory s = (r, s') \<Longrightarrow> container s' = container s"
  "resolve_pack ord Ds s = (rs, s') \<Longrightarrow> container s' = container s"
  by (induct ord key s r s' and ord factory s r s' and ord Ds s rs s'
      rule: resolve_results_induct)
     (auto simp: make_shared_def split: if_splits)

lemma stack_after:
  "resolve ord key s = (r, s') \<Longrightarrow>
     (case r of Inr p \<Rightarrow> ancestor_list s' = ancestor_list s
              | Inl e \<Rightarrow> \<exists>ext. ancestor_list s' = ancestor_list s @ key # ext)"
  "call_factory ord factory s = (r, s') \<Longrightarrow>
     (case r of Inr p \<Rightarrow> ancestor_list s' = ancestor_list s
              | Inl e \<Rightarrow> \<exists>ext. ancestor_list s' = ancestor_list s @ ext)"
  "resolve_pack ord Ds s = (rs, s') \<Longrightarrow>
     (case rs of Inr ps \<Rightarrow> ancestor_list s' = ancestor_list s
               | Inl e \<Rightarrow> \<exists>ext. ancestor_list s' = ancestor_list s @ ext)"
  by (induct ord key s r s' and ord factory s r s' and ord Ds s rs s'
      rule: resolve_results_induct)
     (auto simp: make_shared_def split: if_splits sum.splits)

lemma heap_grows:
  "resolve ord key s = (r, s') \<Longrightarrow> \<exists>new. heap s' = heap s @ new"
  "call_factory ord factory s = (r, s') \<Longrightarrow> \<exists>new. heap s' = heap s @ new"
  "resolve_pack ord Ds s = (rs, s') \<Longrightarrow> \<exists>new. heap s' = heap s @ new"
  by (induct ord key s r s' and ord factory s r s' and ord Ds s rs s'
      rule: resolve_results_induct)
     (auto simp: make_shared_def split: if_splits)

text \<open>Looking a key up after the registry operations; evaluating the resolver.\<close>

lemma Unregister_lookup [simp]:
  "fmlookup (m_factoryList (Unregister key c)) I =
     (if I = key then None else fmlookup (m_factoryList c) I)"
  by (auto simp: Unregister_def fmdom_notD)

lemma RegisterFactory_lookup [simp]:
  "fmlookup (m_factoryList (RegisterFactory key tFactory c)) I =
     (if I = key then Some tFactory else fmlookup (m_factoryList c) I)"
  by (simp add: RegisterFactory_def Let_def)

lemma FactoryContainer_new_lookup [simp]:
  "fmlookup (m_factoryList FactoryContainer_new) I = None"
  by (simp add: FactoryContainer_new_def)

lemma RegisterType_lookup [simp]:
  "fmlookup (m_factoryList (RegisterType key T Arguments c)) I =
     (if I = key then Some (TypeFactory T Arguments) else fmlookup (m_factoryList c) I)"
  by (simp add: RegisterType_def)

lemma RegisterInstance_lookup [simp]:
  "fmlookup (m_factoryList (RegisterInstance key pInstance c)) I =
     (if I = key then Some (InstanceFactory pInstance) else fmlookup (m_factoryList c) I)"
  by (simp add: RegisterInstance_def)

lemmas resolve_eval = resolve.simps make_shared_def static_pointer_cast_def Resolve_def

text \<open>
  The nested resolves of a pack form a chain of memories, and a resolve of a type-bound
  key that returns has built its object on top of what the pack left.
\<close>

lemma pack_chain:
  "resolve_pack ord Ds s = (Inr ps, s') \<Longrightarrow>
   \<exists>ss. length ss = Suc (length Ds) \<and> ss ! 0 = s \<and> ss ! length Ds = s' \<and>
        length ps = length Ds \<and>
        (\<forall>i<length Ds. resolve ord (Ds ! i) (ss ! i) = (Inr (ps ! i), ss ! Suc i))"
proof (induction Ds arbitrary: s ps)
  case Nil
  then show ?case by (intro exI[of _ "[s]"]) simp
next
  case (Cons D Ds)
  from Cons.prems obtain p s1 ps' where
    first: "resolve ord D s = (Inr p, s1)" and
    rest: "resolve_pack ord Ds s1 = (Inr ps', s')" and
    ps: "ps = p # ps'"
    by (cases rule: resolve_pack_cases) auto
  from Cons.IH[OF rest] obtain ss where
    ss: "length ss = Suc (length Ds)" "ss ! 0 = s1" "ss ! length Ds = s'"
        "length ps' = length Ds"
        "\<forall>i<length Ds. resolve ord (Ds ! i) (ss ! i) = (Inr (ps' ! i), ss ! Suc i)"
    by blast
  have "\<forall>i<length (D # Ds).
          resolve ord ((D # Ds) ! i) ((s # ss) ! i) = (Inr (ps ! i), (s # ss) ! Suc i)"
  proof (intro allI impI)
    fix i assume "i < length (D # Ds)"
    then show "resolve ord ((D # Ds) ! i) ((s # ss) ! i) = (Inr (ps ! i), (s # ss) ! Suc i)"
      using first ss ps by (cases i) simp_all
  qed
  with ss ps show ?case
    by (intro exI[of _ "s # ss"]) simp
qed

lemma type_bound_result:
  assumes "fmlookup (m_factoryList (container s)) key = Some (TypeFactory T Arguments)"
    and "key \<notin> set (ancestor_list s)"
    and "resolve ord key s = (Inr p, s')"
  shows "\<exists>ps s1.
      resolve_pack ord (in_eval_order ord Arguments)
         (s\<lparr>ancestor_list := ancestor_list s @ [key]\<rparr>) = (Inr ps, s1) \<and>
      \<not> ctor_throws T (heap s1) (in_eval_order ord ps) \<and>
      p = Ptr (length (heap s1)) \<and>
      container s' = container s \<and> ancestor_list s' = ancestor_list s \<and>
      heap s' = heap s1 @ [\<lparr>dyn_type = type_name T, ctor_args = in_eval_order ord ps\<rparr>]"
  using assms(3)
proof (cases rule: resolve_cases)
  case (returned factory pObj s1)
  with assms(1) have call: "call_factory ord (TypeFactory T Arguments)
      (s\<lparr>ancestor_list := ancestor_list s @ [key]\<rparr>) = (Inr pObj, s1)"
    by simp
  from call show ?thesis
  proof (cases rule: type_factory_cases)
    case (constructed ps s2)
    have "container s2 = container s" "ancestor_list s2 = ancestor_list s @ [key]"
      using container_unchanged(3)[OF constructed(1)] stack_after(3)[OF constructed(1)]
      by simp_all
    with constructed returned show ?thesis
      by (auto simp: make_shared_def split: if_splits)
  qed simp
qed (use assms in simp_all)

lemma type_bound_fresh:
  assumes "fmlookup (m_factoryList (container s)) key = Some (TypeFactory T Arguments)"
    and "key \<notin> set (ancestor_list s)"
    and "resolve ord key s = (Inr p, s')"
  shows "\<exists>new args. p = Ptr (length (heap s) + length new) \<and>
           heap s' = heap s @ new @ [\<lparr>dyn_type = type_name T, ctor_args = args\<rparr>]"
proof -
  from type_bound_result[OF assms] obtain ps s1 where
    pack: "resolve_pack ord (in_eval_order ord Arguments)
             (s\<lparr>ancestor_list := ancestor_list s @ [key]\<rparr>) = (Inr ps, s1)" and
    p: "p = Ptr (length (heap s1))" and
    h: "heap s' = heap s1 @ [\<lparr>dyn_type = type_name T, ctor_args = in_eval_order ord ps\<rparr>]"
    by blast
  from heap_grows(3)[OF pack] obtain new where "heap s1 = heap s @ new" by auto
  with p h show ?thesis by simp
qed

lemma Resolve_type_bound:
  assumes "fmlookup (m_factoryList c) I = Some (TypeFactory T Arguments)"
    and "Resolve ord I c h = (Inr p, c', h')"
  shows "c' = c \<and> (\<exists>new args. p = Ptr (length h + length new) \<and>
           h' = h @ new @ [\<lparr>dyn_type = type_name T, ctor_args = args\<rparr>])"
proof -
  let ?s = "\<lparr>container = c, ancestor_list = [], heap = h\<rparr>"
  obtain r s' where eq: "resolve ord I ?s = (r, s')" by force
  with assms(2) have r: "r = Inr p" "c' = container s'" "h' = heap s'"
    by (simp_all add: Resolve_def)
  from type_bound_fresh[of ?s I T Arguments ord p s'] assms(1) eq r
    container_unchanged(1)[OF eq]
  show ?thesis by simp
qed

text \<open>The order of evaluation and the positions of the arguments.\<close>

lemma in_eval_order_length [simp]: "length (in_eval_order ord xs) = length xs"
  by (cases ord) simp_all

lemma in_eval_order_nth:
  "i < length xs \<Longrightarrow> in_eval_order ord xs ! i = xs ! eval_slot ord (length xs) i"
  by (cases ord) (simp_all add: rev_nth)

lemma eval_slot_less [simp]: "i < n \<Longrightarrow> eval_slot ord n i < n"
  by (cases ord) simp_all

lemma eval_slot_involution [simp]: "i < n \<Longrightarrow> eval_slot ord n (eval_slot ord n i) = i"
  by (cases ord) simp_all

lemma in_eval_order_twice [simp]: "in_eval_order ord (in_eval_order ord xs) = xs"
  by (cases ord) simp_all

lemma Unregister_dom [simp]:
  "fmdom (m_factoryList (Unregister key c)) = fmdom (m_factoryList c) |-| {|key|}"
  by (auto simp: Unregister_def)

lemma RegisterFactory_dom [simp]:
  "fmdom (m_factoryList (RegisterFactory key tFactory c)) =
     finsert key (fmdom (m_factoryList c))"
  by (auto simp: RegisterFactory_def Let_def)

lemma RegisterType_dom [simp]:
  "fmdom (m_factoryList (RegisterType key T Arguments c)) = finsert key (fmdom (m_factoryList c))"
  by (simp add: RegisterType_def)

lemma RegisterInstance_dom [simp]:
  "fmdom (m_factoryList (RegisterInstance key pInstance c)) =
     finsert key (fmdom (m_factoryList c))"
  by (simp add: RegisterInstance_def)

lemma FactoryContainer_new_dom [simp]: "fmdom (m_factoryList FactoryContainer_new) = {||}"
  by (simp add: FactoryContainer_new_def)

text \<open>
  The anatomy of a resolve of a type-bound key that returns: the nested resolves form a
  chain of memories with the same container and ancestor list and growing heaps, each
  dependency is resolved at its place in the order of evaluation, and the object is
  built on the heap the chain ends with.
\<close>

lemma heap_prefix:
  "resolve ord key s = (r, s') \<Longrightarrow> prefix (heap s) (heap s')"
  "call_factory ord factory s = (r, s') \<Longrightarrow> prefix (heap s) (heap s')"
  "resolve_pack ord Ds s = (rs, s') \<Longrightarrow> prefix (heap s) (heap s')"
  using heap_grows by (auto simp: prefix_def)


lemma chain_frames:
  assumes step: "\<forall>i<n. resolve ord (Ds ! i) (ss ! i) = (Inr (ps ! i), ss ! Suc i)"
  shows "i \<le> j \<Longrightarrow> j \<le> n \<Longrightarrow>
         container (ss ! j) = container (ss ! i) \<and>
         ancestor_list (ss ! j) = ancestor_list (ss ! i) \<and>
         prefix (heap (ss ! i)) (heap (ss ! j))"
proof (induction j)
  case 0
  then show ?case by simp
next
  case (Suc j)
  show ?case
  proof (cases "i = Suc j")
    case True
    then show ?thesis by simp
  next
    case False
    with Suc.prems have ij: "i \<le> j" "j \<le> n" "j < n" by simp_all
    from step ij(3) have st: "resolve ord (Ds ! j) (ss ! j) = (Inr (ps ! j), ss ! Suc j)"
      by simp
    from container_unchanged(1)[OF st] stack_after(1)[OF st] heap_prefix(1)[OF st]
      Suc.IH[OF ij(1,2)]
    show ?thesis by (auto intro: prefix_order.trans)
  qed
qed

lemma absent_resolve:
  assumes "fmlookup (m_factoryList (container s)) D = None \<or>
           D \<in> set (ancestor_list s) \<or>
           fmlookup (m_factoryList (container s)) D = Some (InstanceFactory Null)"
    and "resolve ord D s = (Inr p, s')"
  shows "p = Null"
  using assms(2,1) by (cases rule: resolve_cases) auto

lemma no_throw_returns:
  "resolve ord key s = (r, s') \<Longrightarrow> no_throw (container s) \<Longrightarrow> \<exists>p. r = Inr p"
  "call_factory ord factory s = (r, s') \<Longrightarrow> no_throw (container s) \<Longrightarrow>
     (\<exists>K. fmlookup (m_factoryList (container s)) K = Some factory) \<Longrightarrow> \<exists>p. r = Inr p"
  "resolve_pack ord Ds s = (rs, s') \<Longrightarrow> no_throw (container s) \<Longrightarrow> \<exists>ps. rs = Inr ps"
proof (induct ord key s r s' and ord factory s r s' and ord Ds s rs s'
       rule: resolve_results_induct)
  case (threw ord key s factory e s')
  then show ?case by auto
next
  case (constructed ord T Arguments s ps s1 r s')
  then have "never_throws T" unfolding no_throw_def by blast
  with constructed(3) show ?case
    by (auto simp: make_shared_def never_throws_def)
next
  case (rest_threw ord D Ds s p s1 e s')
  with container_unchanged(1)[OF rest_threw(1)] show ?case by simp
qed auto

lemma type_bound_chain:
  assumes bound: "fmlookup (m_factoryList (container s)) I = Some (TypeFactory T Arguments)"
    and fresh: "I \<notin> set (ancestor_list s)"
    and res: "resolve ord I s = (Inr p, s')"
  shows "\<exists>ss args.
      length ss = Suc (length Arguments) \<and> length args = length Arguments \<and>
      ss ! 0 = s\<lparr>ancestor_list := ancestor_list s @ [I]\<rparr> \<and>
      (\<forall>i<length Arguments.
          resolve ord (Arguments ! i) (ss ! eval_slot ord (length Arguments) i) =
            (Inr (args ! i), ss ! Suc (eval_slot ord (length Arguments) i))) \<and>
      (\<forall>j\<le>length Arguments.
          container (ss ! j) = container s \<and>
          ancestor_list (ss ! j) = ancestor_list s @ [I] \<and>
          prefix (heap s) (heap (ss ! j)) \<and>
          prefix (heap (ss ! j)) (heap (ss ! length Arguments))) \<and>
      \<not> ctor_throws T (heap (ss ! length Arguments)) args \<and>
      p = Ptr (length (heap (ss ! length Arguments))) \<and>
      container s' = container s \<and> ancestor_list s' = ancestor_list s \<and>
      heap s' = heap (ss ! length Arguments) @ [\<lparr>dyn_type = type_name T, ctor_args = args\<rparr>]"
proof -
  let ?n = "length Arguments"
  let ?Ds = "in_eval_order ord Arguments"
  let ?s0 = "s\<lparr>ancestor_list := ancestor_list s @ [I]\<rparr>"
  from type_bound_result[OF assms] obtain ps s1 where
    pack: "resolve_pack ord ?Ds ?s0 = (Inr ps, s1)" and
    ok: "\<not> ctor_throws T (heap s1) (in_eval_order ord ps)" and
    p: "p = Ptr (length (heap s1))" and
    frame: "container s' = container s" "ancestor_list s' = ancestor_list s" and
    h: "heap s' = heap s1 @ [\<lparr>dyn_type = type_name T, ctor_args = in_eval_order ord ps\<rparr>]"
    by blast
  from pack_chain[OF pack] obtain ss where
    ss: "length ss = Suc ?n" "ss ! 0 = ?s0" "ss ! ?n = s1" "length ps = ?n" and
    step: "\<forall>j<?n. resolve ord (?Ds ! j) (ss ! j) = (Inr (ps ! j), ss ! Suc j)"
    by auto
  have steps: "\<forall>i<?n. resolve ord (Arguments ! i) (ss ! eval_slot ord ?n i) =
      (Inr (in_eval_order ord ps ! i), ss ! Suc (eval_slot ord ?n i))"
  proof (intro allI impI)
    fix i assume i: "i < ?n"
    let ?j = "eval_slot ord ?n i"
    have j: "?j < ?n" using i by simp
    have "?Ds ! ?j = Arguments ! i" using i j by (simp add: in_eval_order_nth)
    moreover have "in_eval_order ord ps ! i = ps ! ?j"
      using i ss(4) by (simp add: in_eval_order_nth)
    moreover from step j
    have "resolve ord (?Ds ! ?j) (ss ! ?j) = (Inr (ps ! ?j), ss ! Suc ?j)" by blast
    ultimately show "resolve ord (Arguments ! i) (ss ! ?j) =
        (Inr (in_eval_order ord ps ! i), ss ! Suc ?j)"
      by simp
  qed
  have frames: "\<forall>j\<le>?n. container (ss ! j) = container s \<and>
      ancestor_list (ss ! j) = ancestor_list s @ [I] \<and>
      prefix (heap s) (heap (ss ! j)) \<and> prefix (heap (ss ! j)) (heap (ss ! ?n))"
  proof (intro allI impI)
    fix j assume j: "j \<le> ?n"
    from chain_frames[OF step, of 0 j] chain_frames[OF step, of j ?n] j ss(2)
    show "container (ss ! j) = container s \<and>
      ancestor_list (ss ! j) = ancestor_list s @ [I] \<and>
      prefix (heap s) (heap (ss ! j)) \<and> prefix (heap (ss ! j)) (heap (ss ! ?n))"
      by simp
  qed
  show ?thesis
    using ss steps frames ok p frame h
    by (intro exI[of _ ss] exI[of _ "in_eval_order ord ps"]) simp
qed

lemma no_throw_RegisterType [simp]:
  "no_throw (RegisterType key T Arguments c) \<longleftrightarrow>
     never_throws T \<and> no_throw (Unregister key c)"
  by (auto simp: no_throw_def)

lemma no_throw_RegisterInstance [simp]:
  "no_throw (RegisterInstance key pInstance c) \<longleftrightarrow> no_throw (Unregister key c)"
  by (auto simp: no_throw_def)

lemma no_throw_Unregister_new [simp]: "no_throw (Unregister key FactoryContainer_new)"
  by (simp add: no_throw_def)

lemma no_throw_new [simp]: "no_throw FactoryContainer_new"
  by (simp add: no_throw_def)

lemma never_throws_const [simp]: "never_throws (Impl name (\<lambda>h args. False))"
  by (simp add: never_throws_def)

section \<open>Unregistered interfaces\<close>

lemma apply_operation_lookup:
  "fmlookup (m_factoryList (apply_operation op c)) I =
     (if op_key op = I
      then (case op of OpRegisterType _ T Arguments \<Rightarrow> Some (TypeFactory T Arguments)
                     | OpRegisterInstance _ p \<Rightarrow> Some (InstanceFactory p)
                     | OpUnregister _ \<Rightarrow> None)
      else fmlookup (m_factoryList c) I)"
  by (cases op) (auto simp: RegisterType_def RegisterInstance_def)

lemma run_unregistered_last:
  "unregistered_last I ops \<Longrightarrow>
   (filter (\<lambda>op. op_key op = I) ops = [] \<Longrightarrow> fmlookup (m_factoryList c) I = None) \<Longrightarrow>
   fmlookup (m_factoryList (run ops c)) I = None"
proof (induction ops arbitrary: c)
  case Nil
  then show ?case by simp
next
  case (Cons op ops)
  show ?case
  proof (cases "op_key op = I")
    case True
    show ?thesis
    proof (cases "filter (\<lambda>op. op_key op = I) ops = []")
      case empty: True
      with True Cons.prems(1) have "is_unregister op"
        by (simp add: unregistered_last_def)
      then have "fmlookup (m_factoryList (apply_operation op c)) I = None"
        using True by (cases op) simp_all
      moreover have "unregistered_last I ops"
        using empty by (simp add: unregistered_last_def)
      ultimately show ?thesis using Cons.IH by simp
    next
      case False
      with True Cons.prems(1) have "unregistered_last I ops"
        by (auto simp: unregistered_last_def split: list.splits)
      with False Cons.IH show ?thesis by simp
    qed
  next
    case False
    then have "unregistered_last I ops"
      using Cons.prems(1) by (simp add: unregistered_last_def)
    moreover have "filter (\<lambda>op. op_key op = I) ops = [] \<Longrightarrow>
        fmlookup (m_factoryList (apply_operation op c)) I = None"
      using False Cons.prems(2) by (simp add: apply_operation_lookup)
    ultimately show ?thesis using Cons.IH by simp
  qed
qed

lemma resolve_unregistered:
  "fmlookup (m_factoryList (container s)) I = None \<Longrightarrow> resolve ord I s = (Inr Null, s)"
  by (simp add: resolve.simps)

text \<open>
  Claim C8. If \<open>I\<close> was never registered, or the last registry operation that touched \<open>I\<close>
  was \<open>Unregister(I)\<close>, a resolve of \<open>I\<close> returns the absent marker and throws nothing;
  this holds for the public resolve after any sequence of operations on a new
  container, and for a nested resolve in any memory. \<open>Unregister\<close> of an interface that
  is not registered changes nothing, so a second \<open>Unregister(I)\<close> in a row is without
  effect.
\<close>

theorem unregistered_yields_absent:
  "(unregistered_last I ops \<longrightarrow>
      Resolve ord I (run ops FactoryContainer_new) h =
        (Inr Null, run ops FactoryContainer_new, h)) \<and>
   (fmlookup (m_factoryList (container s)) I = None \<longrightarrow> resolve ord I s = (Inr Null, s)) \<and>
   (fmlookup (m_factoryList c) I = None \<longrightarrow> Unregister I c = c) \<and>
   Unregister I (Unregister I c) = Unregister I c"
proof (intro conjI impI)
  assume "unregistered_last I ops"
  then have "fmlookup (m_factoryList (run ops FactoryContainer_new)) I = None"
    by (rule run_unregistered_last) (simp add: FactoryContainer_new_def)
  then show "Resolve ord I (run ops FactoryContainer_new) h =
      (Inr Null, run ops FactoryContainer_new, h)"
    by (simp add: Resolve_def resolve_unregistered)
next
  assume "fmlookup (m_factoryList (container s)) I = None"
  then show "resolve ord I s = (Inr Null, s)" by (rule resolve_unregistered)
next
  assume "fmlookup (m_factoryList c) I = None"
  then show "Unregister I c = c" by (auto simp: Unregister_def dest: fmdom_notD)
next
  show "Unregister I (Unregister I c) = Unregister I c"
    by (simp add: Unregister_def)
qed

theorem unregistered_yields_absent_witness:
  "unregistered_last ''A''
     [OpRegisterType ''A'' (Impl ''TA'' (\<lambda>h args. False)) [], OpUnregister ''A''] \<and>
   Resolve LeftToRight ''A''
      (run [OpRegisterType ''A'' (Impl ''TA'' (\<lambda>h args. False)) [], OpUnregister ''A'']
           FactoryContainer_new) [] =
     (Inr Null,
      run [OpRegisterType ''A'' (Impl ''TA'' (\<lambda>h args. False)) [], OpUnregister ''A'']
          FactoryContainer_new, []) \<and>
   fmlookup (m_factoryList FactoryContainer_new) ''A'' = None \<and>
   resolve LeftToRight ''A'' \<lparr>container = FactoryContainer_new, ancestor_list = [], heap = []\<rparr> =
     (Inr Null, \<lparr>container = FactoryContainer_new, ancestor_list = [], heap = []\<rparr>) \<and>
   Unregister ''A'' FactoryContainer_new = FactoryContainer_new"
  using unregistered_yields_absent
    [of "''A''" "[OpRegisterType ''A'' (Impl ''TA'' (\<lambda>h args. False)) [], OpUnregister ''A'']"
        LeftToRight "[]" "\<lparr>container = FactoryContainer_new, ancestor_list = [], heap = []\<rparr>"
        FactoryContainer_new]
  by (simp add: unregistered_last_def FactoryContainer_new_def)

section \<open>Termination and the depth of the recursion\<close>

text \<open>
  \<open>resolve\<close> is a total function: its termination proof is the argument that every
  call of a recipe follows the push of a registered key that was not yet on the
  ancestor list. It holds for constructors that do not call the container. With a
  budget at least the number of registered keys that are not on the list, the
  resolver for constructors that may call the container computes what \<open>resolve\<close>
  computes, as long as the registered constructors make no such call.
\<close>

lemma in_eval_order_Nil [simp]: "in_eval_order ord [] = []"
  by (cases ord) simp_all






section \<open>The registry during a resolve\<close>





section \<open>The ancestor list on the exit paths of a resolve\<close>

text \<open>
  Claim C3 says that the key pushed before the recipe is called is popped again on every
  exit path, also when the recipe throws. The code pops after the call of the recipe
  and has no handler and no guard object, so an exception passes the \<open>pop_back\<close>.
  Counterexample: \<open>B\<close> is bound to an implementation whose constructor throws; the
  nested resolve of \<open>B\<close> that the recipe of \<open>A\<close> makes, entered with \<open>[A]\<close> on the
  ancestor list, is left with \<open>[A, B]\<close>.
\<close>

theorem throwing_recipe_skips_pop:
  "resolve LeftToRight ''B''
     \<lparr>container = RegisterType ''B'' (Impl ''TB'' (\<lambda>h args. True)) []
                    (RegisterType ''A'' (Impl ''TA'' (\<lambda>h args. False)) [''B'']
                       FactoryContainer_new),
      ancestor_list = [''A''], heap = []\<rparr> =
   (Inl (ConstructorThrew ''TB''),
     \<lparr>container = RegisterType ''B'' (Impl ''TB'' (\<lambda>h args. True)) []
                    (RegisterType ''A'' (Impl ''TA'' (\<lambda>h args. False)) [''B'']
                       FactoryContainer_new),
      ancestor_list = [''A'', ''B''], heap = []\<rparr>)"
  by (simp add: resolve_eval)

text \<open>
  Claim C3 as amended. A resolve that returns (a handle or the absent marker) leaves the
  ancestor list exactly as it found it, so on this path every push is undone by the pop
  that follows the recipe. A resolve that is left by an exception leaves the list longer
  than it found it: the key it pushed is still there, followed by what the calls below
  it left.
\<close>

theorem stack_restored_on_return:
  "(resolve ord key s = (Inr p, s') \<longrightarrow> ancestor_list s' = ancestor_list s) \<and>
   (resolve ord key s = (Inl e, s') \<longrightarrow>
      (\<exists>ext. ancestor_list s' = ancestor_list s @ key # ext))"
  using stack_after(1)[of ord key s "Inr p" s'] stack_after(1)[of ord key s "Inl e" s']
  by simp

theorem stack_restored_on_return_witness:
  "resolve LeftToRight ''A''
     \<lparr>container = RegisterType ''A'' (Impl ''TA'' (\<lambda>h args. False)) [] FactoryContainer_new,
      ancestor_list = [''Z''], heap = []\<rparr> =
   (Inr (Ptr 0),
     \<lparr>container = RegisterType ''A'' (Impl ''TA'' (\<lambda>h args. False)) [] FactoryContainer_new,
      ancestor_list = [''Z''], heap = [\<lparr>dyn_type = ''TA'', ctor_args = []\<rparr>]\<rparr>) \<and>
   resolve LeftToRight ''A''
     \<lparr>container = RegisterType ''A'' (Impl ''TA'' (\<lambda>h args. True)) [] FactoryContainer_new,
      ancestor_list = [''Z''], heap = []\<rparr> =
   (Inl (ConstructorThrew ''TA''),
     \<lparr>container = RegisterType ''A'' (Impl ''TA'' (\<lambda>h args. True)) [] FactoryContainer_new,
      ancestor_list = [''Z'', ''A''], heap = []\<rparr>) \<and>
   (\<exists>ext. [''Z'', ''A''] = [''Z''] @ ''A'' # ext)"
  using stack_restored_on_return
    [of LeftToRight "''A''"
        "\<lparr>container = RegisterType ''A'' (Impl ''TA'' (\<lambda>h args. False)) [] FactoryContainer_new,
          ancestor_list = [''Z''], heap = []\<rparr>"
        "Ptr 0"
        "\<lparr>container = RegisterType ''A'' (Impl ''TA'' (\<lambda>h args. False)) [] FactoryContainer_new,
          ancestor_list = [''Z''], heap = [\<lparr>dyn_type = ''TA'', ctor_args = []\<rparr>]\<rparr>"]
    stack_restored_on_return
    [of LeftToRight "''A''"
        "\<lparr>container = RegisterType ''A'' (Impl ''TA'' (\<lambda>h args. True)) [] FactoryContainer_new,
          ancestor_list = [''Z''], heap = []\<rparr>"
        _
        "\<lparr>container = RegisterType ''A'' (Impl ''TA'' (\<lambda>h args. True)) [] FactoryContainer_new,
          ancestor_list = [''Z'', ''A''], heap = []\<rparr>"
        "ConstructorThrew ''TA''"]
  by (simp add: resolve_eval)

section \<open>Type bindings construct, instance bindings share\<close>

text \<open>
  Claim C6. For an interface \<open>I\<close> with a type binding, two successive top-level resolves
  of \<open>I\<close> that yield handles yield handles to two distinct objects of the bound
  implementation. Each of the two objects did not exist before the call that returned
  it, so nothing is kept from one call to the next, and the second call leaves the
  first object as it is.
\<close>

theorem type_binding_constructs_fresh:
  assumes "fmlookup (m_factoryList c) I = Some (TypeFactory T Arguments)"
    and "Resolve ord I c h0 = (Inr p1, c1, h1)"
    and "Resolve ord I c1 h1 = (Inr p2, c2, h2)"
  shows "\<exists>a1 a2. p1 = Ptr a1 \<and> p2 = Ptr a2 \<and> a1 \<noteq> a2 \<and>
           length h0 \<le> a1 \<and> a1 < length h1 \<and> length h1 \<le> a2 \<and> a2 < length h2 \<and>
           dyn_type (h1 ! a1) = type_name T \<and> dyn_type (h2 ! a2) = type_name T \<and>
           h2 ! a1 = h1 ! a1"
proof -
  from Resolve_type_bound[OF assms(1,2)] obtain new1 args1 where
    1: "c1 = c" "p1 = Ptr (length h0 + length new1)"
       "h1 = h0 @ new1 @ [\<lparr>dyn_type = type_name T, ctor_args = args1\<rparr>]"
    by blast
  from Resolve_type_bound[of c1 I T Arguments ord h1 p2 c2 h2] assms(1,3) 1(1)
  obtain new2 args2 where
    2: "p2 = Ptr (length h1 + length new2)"
       "h2 = h1 @ new2 @ [\<lparr>dyn_type = type_name T, ctor_args = args2\<rparr>]"
    by blast
  show ?thesis
    using 1 2 by (simp add: nth_append)
qed

theorem type_binding_constructs_fresh_witness:
  "fmlookup (m_factoryList (RegisterType ''A'' (Impl ''TA'' (\<lambda>h args. False)) []
       FactoryContainer_new)) ''A'' = Some (TypeFactory (Impl ''TA'' (\<lambda>h args. False)) []) \<and>
   Resolve LeftToRight ''A''
     (RegisterType ''A'' (Impl ''TA'' (\<lambda>h args. False)) [] FactoryContainer_new) [] =
     (Inr (Ptr 0), RegisterType ''A'' (Impl ''TA'' (\<lambda>h args. False)) [] FactoryContainer_new,
      [\<lparr>dyn_type = ''TA'', ctor_args = []\<rparr>]) \<and>
   Resolve LeftToRight ''A''
     (RegisterType ''A'' (Impl ''TA'' (\<lambda>h args. False)) [] FactoryContainer_new)
     [\<lparr>dyn_type = ''TA'', ctor_args = []\<rparr>] =
     (Inr (Ptr 1), RegisterType ''A'' (Impl ''TA'' (\<lambda>h args. False)) [] FactoryContainer_new,
      [\<lparr>dyn_type = ''TA'', ctor_args = []\<rparr>, \<lparr>dyn_type = ''TA'', ctor_args = []\<rparr>]) \<and>
   (\<exists>a1 a2. Ptr 0 = Ptr a1 \<and> Ptr 1 = Ptr a2 \<and> a1 \<noteq> a2)"
  using type_binding_constructs_fresh
    [of "RegisterType ''A'' (Impl ''TA'' (\<lambda>h args. False)) [] FactoryContainer_new" "''A''"
        "Impl ''TA'' (\<lambda>h args. False)" "[]" LeftToRight "[]" "Ptr 0"
        "RegisterType ''A'' (Impl ''TA'' (\<lambda>h args. False)) [] FactoryContainer_new"
        "[\<lparr>dyn_type = ''TA'', ctor_args = []\<rparr>]" "Ptr 1"
        "RegisterType ''A'' (Impl ''TA'' (\<lambda>h args. False)) [] FactoryContainer_new"
        "[\<lparr>dyn_type = ''TA'', ctor_args = []\<rparr>, \<lparr>dyn_type = ''TA'', ctor_args = []\<rparr>]"]
  by (simp add: resolve_eval)

text \<open>
  The recipe of an instance binding makes no nested resolve, so while a recipe runs
  that makes some, the key of an instance binding is not on the ancestor list. Every
  object built during a resolve therefore received the instance wherever it declares
  it.
\<close>

lemma instance_injected:
  "resolve ord key s = (r, s') \<Longrightarrow>
   fmlookup (m_factoryList (container s)) I = Some (InstanceFactory h) \<Longrightarrow>
   I \<notin> set (ancestor_list s) \<Longrightarrow>
     (\<forall>a. length (heap s) \<le> a \<and> a < length (heap s') \<longrightarrow>
          injected (container s) I h (heap s' ! a)) \<and>
     (key = I \<longrightarrow> r = Inr h)"
  "call_factory ord factory s = (r, s') \<Longrightarrow>
   fmlookup (m_factoryList (container s)) I = Some (InstanceFactory h) \<Longrightarrow>
   (\<exists>K. fmlookup (m_factoryList (container s)) K = Some factory) \<Longrightarrow>
   ((\<exists>T Arguments. factory = TypeFactory T Arguments) \<longrightarrow> I \<notin> set (ancestor_list s)) \<Longrightarrow>
     (\<forall>a. length (heap s) \<le> a \<and> a < length (heap s') \<longrightarrow>
          injected (container s) I h (heap s' ! a)) \<and>
     (\<forall>p. factory = InstanceFactory p \<longrightarrow> r = Inr p)"
  "resolve_pack ord Ds s = (rs, s') \<Longrightarrow>
   fmlookup (m_factoryList (container s)) I = Some (InstanceFactory h) \<Longrightarrow>
   I \<notin> set (ancestor_list s) \<Longrightarrow>
     (\<forall>a. length (heap s) \<le> a \<and> a < length (heap s') \<longrightarrow>
          injected (container s) I h (heap s' ! a)) \<and>
     (\<forall>ps. rs = Inr ps \<longrightarrow> length ps = length Ds \<and>
           (\<forall>i<length Ds. Ds ! i = I \<longrightarrow> ps ! i = h))"
proof (induct ord key s r s' and ord factory s r s' and ord Ds s rs s'
       rule: resolve_results_induct)
  case (unregistered ord key s)
  then show ?case by auto
next
  case (cycle ord key s factory)
  then show ?case by auto
next
  case (threw ord key s factory e s')
  have "\<exists>K. fmlookup (m_factoryList (container s)) K = Some factory"
    using threw(1) by blast
  moreover have "(\<exists>T Arguments. factory = TypeFactory T Arguments) \<longrightarrow> I \<noteq> key"
    using threw(1,5) by auto
  ultimately show ?case
    using threw(4) threw(1,5,6) by auto
next
  case (returned ord key s factory pObj s1)
  have "\<exists>K. fmlookup (m_factoryList (container s)) K = Some factory"
    using returned(1) by blast
  moreover have "(\<exists>T Arguments. factory = TypeFactory T Arguments) \<longrightarrow> I \<noteq> key"
    using returned(1,5) by auto
  ultimately show ?case
    using returned(4) returned(1,5,6) by auto
next
  case (inst ord pInstance s)
  then show ?case by auto
next
  case (dep_threw ord T Arguments s e s')
  then show ?case by simp
next
  case (constructed ord T Arguments s ps s1 r s')
  from constructed(5) obtain K where
    K: "fmlookup (m_factoryList (container s)) K = Some (TypeFactory T Arguments)" by blast
  from constructed(2)[OF constructed(4)] constructed(6) have
    old: "\<forall>a. length (heap s) \<le> a \<and> a < length (heap s1) \<longrightarrow>
             injected (container s) I h (heap s1 ! a)" and
    len: "length ps = length Arguments" and
    ps: "\<forall>i<length Arguments. in_eval_order ord Arguments ! i = I \<longrightarrow> ps ! i = h"
    by simp_all
  have args: "\<forall>i<length Arguments. Arguments ! i = I \<longrightarrow> in_eval_order ord ps ! i = h"
  proof (intro allI impI)
    fix i assume i: "i < length Arguments" and I: "Arguments ! i = I"
    let ?j = "eval_slot ord (length Arguments) i"
    have "in_eval_order ord Arguments ! ?j = Arguments ! i"
      using i by (simp add: in_eval_order_nth)
    with ps i I have "ps ! ?j = h" by simp
    then show "in_eval_order ord ps ! i = h"
      using i len by (simp add: in_eval_order_nth)
  qed
  have new: "injected (container s) I h \<lparr>dyn_type = type_name T, ctor_args = in_eval_order ord ps\<rparr>"
    unfolding injected_def using K len args by auto
  show ?case
  proof (cases "ctor_throws T (heap s1) (in_eval_order ord ps)")
    case True
    with constructed(3) old show ?thesis by (simp add: make_shared_def)
  next
    case False
    with constructed(3) have "heap s' = heap s1 @ [\<lparr>dyn_type = type_name T, ctor_args = in_eval_order ord ps\<rparr>]"
      by (auto simp: make_shared_def)
    with old new show ?thesis
      by (auto simp: nth_append less_Suc_eq)
  qed
next
  case (nil ord s)
  then show ?case by auto
next
  case (first_threw ord D Ds s e s')
  then show ?case by simp
next
  case (rest_threw ord D Ds s p s1 e s')
  have frame: "container s1 = container s" "ancestor_list s1 = ancestor_list s"
    using container_unchanged(1)[OF rest_threw(1)] stack_after(1)[OF rest_threw(1)] by simp_all
  from heap_grows(3)[OF rest_threw(3)] obtain new where new: "heap s' = heap s1 @ new" by blast
  from rest_threw(2)[OF rest_threw(5,6)] rest_threw(4) rest_threw(5,6) frame
  have "\<forall>a. length (heap s) \<le> a \<and> a < length (heap s1) \<longrightarrow>
             injected (container s) I h (heap s1 ! a)"
       "\<forall>a. length (heap s1) \<le> a \<and> a < length (heap s') \<longrightarrow>
             injected (container s) I h (heap s' ! a)"
    by simp_all
  then show ?case using new
    by (auto simp: nth_append split: if_splits)
next
  case (all_returned ord D Ds s p s1 ps s')
  have frame: "container s1 = container s" "ancestor_list s1 = ancestor_list s"
    using container_unchanged(1)[OF all_returned(1)] stack_after(1)[OF all_returned(1)]
    by simp_all
  from heap_grows(3)[OF all_returned(3)] obtain new where new: "heap s' = heap s1 @ new"
    by blast
  from all_returned(2)[OF all_returned(5,6)] all_returned(4) all_returned(5,6) frame
  have *: "\<forall>a. length (heap s) \<le> a \<and> a < length (heap s1) \<longrightarrow>
             injected (container s) I h (heap s1 ! a)"
       "\<forall>a. length (heap s1) \<le> a \<and> a < length (heap s') \<longrightarrow>
             injected (container s) I h (heap s' ! a)"
       "D = I \<longrightarrow> p = h" "length ps = length Ds"
       "\<forall>i<length Ds. Ds ! i = I \<longrightarrow> ps ! i = h"
    by simp_all
  have "\<forall>a. length (heap s) \<le> a \<and> a < length (heap s') \<longrightarrow>
             injected (container s) I h (heap s' ! a)"
    using *(1,2) new by (auto simp: nth_append split: if_splits)
  moreover have "\<forall>i<length (D # Ds). (D # Ds) ! i = I \<longrightarrow> (p # ps) ! i = h"
    using *(3,5) by (auto simp: nth_Cons split: nat.splits)
  ultimately show ?case using *(4) by simp
qed

text \<open>
  Claim C5. For an interface \<open>I\<close> with an instance binding to the handle \<open>h\<close>, a top-level
  resolve of \<open>I\<close> yields \<open>h\<close> itself, on whatever heap earlier resolves have left, and
  changes nothing; so does a nested resolve of \<open>I\<close>; and every object that a top-level
  resolve of any interface constructs, at any depth, has received \<open>h\<close> in each
  constructor position whose declared dependency is \<open>I\<close>.
\<close>

theorem instance_binding_shared:
  assumes "fmlookup (m_factoryList c) I = Some (InstanceFactory h)"
  shows "Resolve ord I c hp = (Inr h, c, hp) \<and>
         (container s = c \<and> I \<notin> set (ancestor_list s) \<longrightarrow> resolve ord I s = (Inr h, s)) \<and>
         (Resolve ord J c hp = (r, c', hp') \<longrightarrow>
            (\<forall>a. length hp \<le> a \<and> a < length hp' \<longrightarrow> injected c I h (hp' ! a)))"
proof (intro conjI impI)
  show "Resolve ord I c hp = (Inr h, c, hp)"
    using assms by (simp add: resolve_eval)
next
  assume "container s = c \<and> I \<notin> set (ancestor_list s)"
  with assms show "resolve ord I s = (Inr h, s)"
    by (simp add: resolve_eval)
next
  assume top: "Resolve ord J c hp = (r, c', hp')"
  let ?s = "\<lparr>container = c, ancestor_list = [], heap = hp\<rparr>"
  obtain r0 s' where eq: "resolve ord J ?s = (r0, s')" by force
  with top have "hp' = heap s'" by (simp add: Resolve_def)
  with instance_injected(1)[OF eq, of I h] assms
  show "\<forall>a. length hp \<le> a \<and> a < length hp' \<longrightarrow> injected c I h (hp' ! a)"
    by simp
qed

theorem instance_binding_shared_witness:
  "fmlookup (m_factoryList (RegisterInstance ''B'' (Ptr 0)
       (RegisterType ''A'' (Impl ''TA'' (\<lambda>h args. False)) [''B''] FactoryContainer_new))) ''B'' =
     Some (InstanceFactory (Ptr 0)) \<and>
   Resolve LeftToRight ''B''
     (RegisterInstance ''B'' (Ptr 0)
       (RegisterType ''A'' (Impl ''TA'' (\<lambda>h args. False)) [''B''] FactoryContainer_new))
     [\<lparr>dyn_type = ''TB'', ctor_args = []\<rparr>] =
     (Inr (Ptr 0),
      RegisterInstance ''B'' (Ptr 0)
       (RegisterType ''A'' (Impl ''TA'' (\<lambda>h args. False)) [''B''] FactoryContainer_new),
      [\<lparr>dyn_type = ''TB'', ctor_args = []\<rparr>]) \<and>
   resolve LeftToRight ''B''
     \<lparr>container = RegisterInstance ''B'' (Ptr 0)
         (RegisterType ''A'' (Impl ''TA'' (\<lambda>h args. False)) [''B''] FactoryContainer_new),
      ancestor_list = [''A''], heap = [\<lparr>dyn_type = ''TB'', ctor_args = []\<rparr>]\<rparr> =
     (Inr (Ptr 0),
      \<lparr>container = RegisterInstance ''B'' (Ptr 0)
         (RegisterType ''A'' (Impl ''TA'' (\<lambda>h args. False)) [''B''] FactoryContainer_new),
      ancestor_list = [''A''], heap = [\<lparr>dyn_type = ''TB'', ctor_args = []\<rparr>]\<rparr>) \<and>
   Resolve LeftToRight ''A''
     (RegisterInstance ''B'' (Ptr 0)
       (RegisterType ''A'' (Impl ''TA'' (\<lambda>h args. False)) [''B''] FactoryContainer_new))
     [\<lparr>dyn_type = ''TB'', ctor_args = []\<rparr>] =
     (Inr (Ptr 1),
      RegisterInstance ''B'' (Ptr 0)
       (RegisterType ''A'' (Impl ''TA'' (\<lambda>h args. False)) [''B''] FactoryContainer_new),
      [\<lparr>dyn_type = ''TB'', ctor_args = []\<rparr>, \<lparr>dyn_type = ''TA'', ctor_args = [Ptr 0]\<rparr>]) \<and>
   injected
     (RegisterInstance ''B'' (Ptr 0)
       (RegisterType ''A'' (Impl ''TA'' (\<lambda>h args. False)) [''B''] FactoryContainer_new))
     ''B'' (Ptr 0) \<lparr>dyn_type = ''TA'', ctor_args = [Ptr 0]\<rparr>"
  using instance_binding_shared
    [of "RegisterInstance ''B'' (Ptr 0)
          (RegisterType ''A'' (Impl ''TA'' (\<lambda>h args. False)) [''B''] FactoryContainer_new)"
        "''B''" "Ptr 0" LeftToRight "[\<lparr>dyn_type = ''TB'', ctor_args = []\<rparr>]"
        "\<lparr>container = RegisterInstance ''B'' (Ptr 0)
           (RegisterType ''A'' (Impl ''TA'' (\<lambda>h args. False)) [''B''] FactoryContainer_new),
          ancestor_list = [''A''], heap = [\<lparr>dyn_type = ''TB'', ctor_args = []\<rparr>]\<rparr>"
        "''A''" "Inr (Ptr 1)"
        "RegisterInstance ''B'' (Ptr 0)
          (RegisterType ''A'' (Impl ''TA'' (\<lambda>h args. False)) [''B''] FactoryContainer_new)"
        "[\<lparr>dyn_type = ''TB'', ctor_args = []\<rparr>, \<lparr>dyn_type = ''TA'', ctor_args = [Ptr 0]\<rparr>]"]
  by (auto simp: resolve_eval dest: spec[of _ 1])

section \<open>Registration replaces\<close>

text \<open>
  Claim C7. A registration for \<open>I\<close>, of a type or of an instance, stores its recipe under
  \<open>I\<close> whatever was stored there before and leaves every other key alone. After
  \<open>Register(I, Ta, ...)\<close> and then \<open>Register(I, Tb, ...)\<close> the recipe of \<open>I\<close> is the one for
  \<open>Tb\<close>, and a resolve of \<open>I\<close> that yields a handle yields one to a new object of type
  \<open>Tb\<close>. After any sequence of operations, a key that is in the registry has exactly
  one recipe.
\<close>

theorem registration_replaces:
  "fmlookup (m_factoryList (RegisterType I Tb Db (RegisterType I Ta Da c))) I =
      Some (TypeFactory Tb Db) \<and>
   (Resolve ord I (RegisterType I Tb Db (RegisterType I Ta Da c)) h = (Inr p, c', h') \<longrightarrow>
      (\<exists>a. p = Ptr a \<and> length h \<le> a \<and> a < length h' \<and>
           dyn_type (h' ! a) = type_name Tb)) \<and>
   fmlookup (m_factoryList (RegisterType I T Arguments c)) J =
      (if J = I then Some (TypeFactory T Arguments) else fmlookup (m_factoryList c) J) \<and>
   fmlookup (m_factoryList (RegisterInstance I pInstance c)) J =
      (if J = I then Some (InstanceFactory pInstance) else fmlookup (m_factoryList c) J) \<and>
   (J |\<in>| fmdom (m_factoryList (run ops FactoryContainer_new)) \<longrightarrow>
      (\<exists>!factory. fmlookup (m_factoryList (run ops FactoryContainer_new)) J = Some factory))"
proof (intro conjI impI)
  assume "Resolve ord I (RegisterType I Tb Db (RegisterType I Ta Da c)) h = (Inr p, c', h')"
  moreover have "fmlookup (m_factoryList (RegisterType I Tb Db (RegisterType I Ta Da c))) I =
      Some (TypeFactory Tb Db)" by simp
  ultimately obtain new args where
    "p = Ptr (length h + length new)"
    "h' = h @ new @ [\<lparr>dyn_type = type_name Tb, ctor_args = args\<rparr>]"
    using Resolve_type_bound by blast
  then show "\<exists>a. p = Ptr a \<and> length h \<le> a \<and> a < length h' \<and> dyn_type (h' ! a) = type_name Tb"
    by (simp add: nth_append)
next
  assume "J |\<in>| fmdom (m_factoryList (run ops FactoryContainer_new))"
  then show "\<exists>!factory. fmlookup (m_factoryList (run ops FactoryContainer_new)) J = Some factory"
    by (auto simp: fmlookup_dom_iff)
qed simp_all

theorem registration_replaces_witness:
  "Resolve LeftToRight ''A''
     (RegisterType ''A'' (Impl ''Tb'' (\<lambda>h args. False)) []
        (RegisterType ''A'' (Impl ''Ta'' (\<lambda>h args. False)) [] FactoryContainer_new)) [] =
     (Inr (Ptr 0),
      RegisterType ''A'' (Impl ''Tb'' (\<lambda>h args. False)) []
        (RegisterType ''A'' (Impl ''Ta'' (\<lambda>h args. False)) [] FactoryContainer_new),
      [\<lparr>dyn_type = ''Tb'', ctor_args = []\<rparr>]) \<and>
   ''A'' |\<in>| fmdom (m_factoryList (run [OpRegisterType ''A'' (Impl ''Ta'' (\<lambda>h args. False)) [],
                                        OpRegisterInstance ''A'' Null] FactoryContainer_new)) \<and>
   (\<exists>!factory. fmlookup (m_factoryList (run [OpRegisterType ''A'' (Impl ''Ta'' (\<lambda>h args. False)) [],
                 OpRegisterInstance ''A'' Null] FactoryContainer_new)) ''A'' = Some factory) \<and>
   (\<exists>a. Ptr 0 = Ptr a \<and> length ([]::obj list) \<le> a \<and>
        a < length [\<lparr>dyn_type = ''Tb'', ctor_args = []\<rparr>] \<and>
        dyn_type ([\<lparr>dyn_type = ''Tb'', ctor_args = []\<rparr>] ! a) =
          type_name (Impl ''Tb'' (\<lambda>h args. False)))"
  using registration_replaces
    [of "''A''" "Impl ''Tb'' (\<lambda>h args. False)" "[]" "Impl ''Ta'' (\<lambda>h args. False)" "[]"
        FactoryContainer_new LeftToRight "[]" "Ptr 0"
        "RegisterType ''A'' (Impl ''Tb'' (\<lambda>h args. False)) []
          (RegisterType ''A'' (Impl ''Ta'' (\<lambda>h args. False)) [] FactoryContainer_new)"
        "[\<lparr>dyn_type = ''Tb'', ctor_args = []\<rparr>]" _ _ "''A''" _
        "[OpRegisterType ''A'' (Impl ''Ta'' (\<lambda>h args. False)) [], OpRegisterInstance ''A'' Null]"]
  by (simp add: resolve_eval fmlookup_dom_iff)

section \<open>Dependencies of a type binding\<close>

text \<open>
  Claim C2 says that the dependencies of a type binding are resolved in declaration
  order, left to right. The recipe resolves them as the arguments of one call,
  \<open>std::make_shared<T>(this->Resolve<Arguments>(ancestor_list)...)\<close>, and the order in
  which the arguments of a call are evaluated is not fixed by C++. Counterexample, with
  arguments evaluated right to left as several compilers do: \<open>A\<close> declares \<open>[B, C]\<close>, and
  the object for \<open>C\<close> is constructed first (address 0), the one for \<open>B\<close> second; the
  constructor of \<open>TA\<close> still receives the handle for \<open>B\<close> first and the one for \<open>C\<close>
  second.
\<close>

theorem right_to_left_resolves_last_dependency_first:
  "Resolve RightToLeft ''A''
     (RegisterType ''C'' (Impl ''TC'' (\<lambda>h args. False)) []
       (RegisterType ''B'' (Impl ''TB'' (\<lambda>h args. False)) []
         (RegisterType ''A'' (Impl ''TA'' (\<lambda>h args. False)) [''B'', ''C'']
            FactoryContainer_new))) [] =
   (Inr (Ptr 2),
     RegisterType ''C'' (Impl ''TC'' (\<lambda>h args. False)) []
       (RegisterType ''B'' (Impl ''TB'' (\<lambda>h args. False)) []
         (RegisterType ''A'' (Impl ''TA'' (\<lambda>h args. False)) [''B'', ''C'']
            FactoryContainer_new)),
     [\<lparr>dyn_type = ''TC'', ctor_args = []\<rparr>,
      \<lparr>dyn_type = ''TB'', ctor_args = []\<rparr>,
      \<lparr>dyn_type = ''TA'', ctor_args = [Ptr 1, Ptr 0]\<rparr>])"
  by (simp add: resolve_eval)

text \<open>
  Claim C2 as amended. A resolve of an interface with a type binding with declared
  dependencies \<open>D1 ... Dn\<close> that returns has made the \<open>n\<close> nested resolves one after the
  other, each on the memory the one before it left (\<open>ss\<close> is this chain of memories,
  starting with the key pushed), the resolve of \<open>Di\<close> at the place that the order of
  evaluation gives to the \<open>i\<close>-th argument: place \<open>i\<close> when arguments are evaluated left
  to right, which is declaration order, and place \<open>n - 1 - i\<close> when they are evaluated
  right to left. The constructor receives the \<open>n\<close> handles by position, the handle
  resolved for \<open>Di\<close> as its \<open>i\<close>-th argument, and it runs after all \<open>n\<close> nested resolves:
  the new object is added to the heap that the last of them left.
\<close>

theorem dependencies_passed_by_position:
  assumes "fmlookup (m_factoryList (container s)) I = Some (TypeFactory T Arguments)"
    and "I \<notin> set (ancestor_list s)"
    and "resolve ord I s = (Inr p, s')"
  shows "\<exists>ss args.
      length ss = Suc (length Arguments) \<and> length args = length Arguments \<and>
      ss ! 0 = s\<lparr>ancestor_list := ancestor_list s @ [I]\<rparr> \<and>
      (\<forall>i<length Arguments.
          resolve ord (Arguments ! i) (ss ! eval_slot ord (length Arguments) i) =
            (Inr (args ! i), ss ! Suc (eval_slot ord (length Arguments) i))) \<and>
      p = Ptr (length (heap (ss ! length Arguments))) \<and>
      heap s' = heap (ss ! length Arguments) @ [\<lparr>dyn_type = type_name T, ctor_args = args\<rparr>]"
  using type_bound_chain[OF assms] by blast

theorem dependencies_passed_by_position_witness:
  "fmlookup (m_factoryList
     (container
       \<lparr>container = RegisterType ''C'' (Impl ''TC'' (\<lambda>h args. False)) []
          (RegisterType ''A'' (Impl ''TA'' (\<lambda>h args. False)) [''B'', ''C'']
             FactoryContainer_new),
        ancestor_list = [], heap = []\<rparr>)) ''A'' =
     Some (TypeFactory (Impl ''TA'' (\<lambda>h args. False)) [''B'', ''C'']) \<and>
   resolve RightToLeft ''A''
     \<lparr>container = RegisterType ''C'' (Impl ''TC'' (\<lambda>h args. False)) []
        (RegisterType ''A'' (Impl ''TA'' (\<lambda>h args. False)) [''B'', ''C'']
           FactoryContainer_new),
      ancestor_list = [], heap = []\<rparr> =
     (Inr (Ptr 1),
      \<lparr>container = RegisterType ''C'' (Impl ''TC'' (\<lambda>h args. False)) []
        (RegisterType ''A'' (Impl ''TA'' (\<lambda>h args. False)) [''B'', ''C'']
           FactoryContainer_new),
       ancestor_list = [],
       heap = [\<lparr>dyn_type = ''TC'', ctor_args = []\<rparr>,
               \<lparr>dyn_type = ''TA'', ctor_args = [Null, Ptr 0]\<rparr>]\<rparr>) \<and>
   (\<exists>ss args.
      length ss = Suc (length [''B'', ''C'']) \<and> length args = length [''B'', ''C''] \<and>
      ss ! 0 = \<lparr>container = RegisterType ''C'' (Impl ''TC'' (\<lambda>h args. False)) []
                  (RegisterType ''A'' (Impl ''TA'' (\<lambda>h args. False)) [''B'', ''C'']
                     FactoryContainer_new),
                ancestor_list = [''A''], heap = []\<rparr> \<and>
      (\<forall>i<length [''B'', ''C''].
         resolve RightToLeft ([''B'', ''C''] ! i)
            (ss ! eval_slot RightToLeft (length [''B'', ''C'']) i) =
           (Inr (args ! i), ss ! Suc (eval_slot RightToLeft (length [''B'', ''C'']) i))) \<and>
      Ptr 1 = Ptr (length (heap (ss ! length [''B'', ''C'']))) \<and>
      [\<lparr>dyn_type = ''TC'', ctor_args = []\<rparr>, \<lparr>dyn_type = ''TA'', ctor_args = [Null, Ptr 0]\<rparr>] =
        heap (ss ! length [''B'', ''C'']) @ [\<lparr>dyn_type = ''TA'', ctor_args = args\<rparr>])"
proof -
  let ?c = "RegisterType ''C'' (Impl ''TC'' (\<lambda>h args. False)) []
        (RegisterType ''A'' (Impl ''TA'' (\<lambda>h args. False)) [''B'', ''C'']
           FactoryContainer_new)"
  let ?s = "\<lparr>container = ?c, ancestor_list = [], heap = []\<rparr>"
  let ?s' = "\<lparr>container = ?c, ancestor_list = [],
       heap = [\<lparr>dyn_type = ''TC'', ctor_args = []\<rparr>,
               \<lparr>dyn_type = ''TA'', ctor_args = [Null, Ptr 0]\<rparr>]\<rparr>"
  have bound: "fmlookup (m_factoryList (container ?s)) ''A'' =
     Some (TypeFactory (Impl ''TA'' (\<lambda>h args. False)) [''B'', ''C''])"
    by simp
  have fresh: "''A'' \<notin> set (ancestor_list ?s)" by simp
  have res: "resolve RightToLeft ''A'' ?s = (Inr (Ptr 1), ?s')"
    by (simp add: resolve_eval)
  from dependencies_passed_by_position[OF bound fresh res]
  have "\<exists>ss args.
      length ss = Suc (length [''B'', ''C'']) \<and> length args = length [''B'', ''C''] \<and>
      ss ! 0 = \<lparr>container = ?c, ancestor_list = [''A''], heap = []\<rparr> \<and>
      (\<forall>i<length [''B'', ''C''].
         resolve RightToLeft ([''B'', ''C''] ! i)
            (ss ! eval_slot RightToLeft (length [''B'', ''C'']) i) =
           (Inr (args ! i), ss ! Suc (eval_slot RightToLeft (length [''B'', ''C'']) i))) \<and>
      Ptr 1 = Ptr (length (heap (ss ! length [''B'', ''C'']))) \<and>
      [\<lparr>dyn_type = ''TC'', ctor_args = []\<rparr>, \<lparr>dyn_type = ''TA'', ctor_args = [Null, Ptr 0]\<rparr>] =
        heap (ss ! length [''B'', ''C'']) @ [\<lparr>dyn_type = ''TA'', ctor_args = args\<rparr>]"
    by simp
  with bound res show ?thesis by (intro conjI)
qed

text \<open>
  Claim C4. Let \<open>I\<close> have a type binding whose \<open>i\<close>-th declared dependency is not
  registered, or is on the ancestor list when it is resolved (a cycle), or is bound to
  an absent instance, so that its nested resolve yields the absent marker. Then the
  recipe of \<open>I\<close> still calls the constructor: a resolve of \<open>I\<close> that returns yields a new
  object of the bound implementation whose \<open>i\<close>-th constructor argument is the absent
  handle, and when no registered constructor throws, the resolve does return. Nothing
  but a constructor can make it end otherwise.
\<close>

theorem absent_dependency_reaches_constructor:
  assumes bound: "fmlookup (m_factoryList (container s)) I = Some (TypeFactory T Arguments)"
    and fresh: "I \<notin> set (ancestor_list s)"
    and i: "i < length Arguments"
    and absent: "fmlookup (m_factoryList (container s)) (Arguments ! i) = None \<or>
                 Arguments ! i \<in> set (ancestor_list s @ [I]) \<or>
                 fmlookup (m_factoryList (container s)) (Arguments ! i) =
                   Some (InstanceFactory Null)"
    and res: "resolve ord I s = (r, s')"
  shows "(no_throw (container s) \<longrightarrow> (\<exists>p. r = Inr p)) \<and>
         (\<forall>p. r = Inr p \<longrightarrow>
            (\<exists>a. p = Ptr a \<and> length (heap s) \<le> a \<and> a < length (heap s') \<and>
                 dyn_type (heap s' ! a) = type_name T \<and>
                 length (ctor_args (heap s' ! a)) = length Arguments \<and>
                 ctor_args (heap s' ! a) ! i = Null))"
proof (intro conjI allI impI)
  assume "no_throw (container s)"
  with no_throw_returns(1)[OF res] show "\<exists>p. r = Inr p" by simp
next
  fix p assume "r = Inr p"
  with res have res': "resolve ord I s = (Inr p, s')" by simp
  let ?n = "length Arguments"
  let ?j = "eval_slot ord ?n i"
  from type_bound_chain[OF bound fresh res'] obtain ss args where
    len: "length args = ?n" and
    steps: "\<forall>i<?n. resolve ord (Arguments ! i) (ss ! eval_slot ord ?n i) =
              (Inr (args ! i), ss ! Suc (eval_slot ord ?n i))" and
    frames: "\<forall>j\<le>?n. container (ss ! j) = container s \<and>
              ancestor_list (ss ! j) = ancestor_list s @ [I] \<and>
              prefix (heap s) (heap (ss ! j)) \<and> prefix (heap (ss ! j)) (heap (ss ! ?n))" and
    p: "p = Ptr (length (heap (ss ! ?n)))" and
    h: "heap s' = heap (ss ! ?n) @ [\<lparr>dyn_type = type_name T, ctor_args = args\<rparr>]"
    by blast
  from steps i have st: "resolve ord (Arguments ! i) (ss ! ?j) = (Inr (args ! i), ss ! Suc ?j)"
    by blast
  have j: "?j \<le> ?n" using i by (simp add: less_imp_le)
  with frames have fr: "container (ss ! ?j) = container s"
    "ancestor_list (ss ! ?j) = ancestor_list s @ [I]" by blast+
  from absent fr have "fmlookup (m_factoryList (container (ss ! ?j))) (Arguments ! i) = None \<or>
      Arguments ! i \<in> set (ancestor_list (ss ! ?j)) \<or>
      fmlookup (m_factoryList (container (ss ! ?j))) (Arguments ! i) = Some (InstanceFactory Null)"
    by simp
  from absent_resolve[OF this st] have null: "args ! i = Null" .
  from frames have "prefix (heap s) (heap (ss ! ?n))" by blast
  then have "length (heap s) \<le> length (heap (ss ! ?n))" by (rule prefix_length_le)
  with p h len null
  show "\<exists>a. p = Ptr a \<and> length (heap s) \<le> a \<and> a < length (heap s') \<and>
      dyn_type (heap s' ! a) = type_name T \<and>
      length (ctor_args (heap s' ! a)) = length Arguments \<and>
      ctor_args (heap s' ! a) ! i = Null"
    by simp
qed

theorem absent_dependency_reaches_constructor_witness:
  "fmlookup (m_factoryList
       (RegisterType ''A'' (Impl ''TA'' (\<lambda>h args. False)) [''B''] FactoryContainer_new)) ''A'' =
     Some (TypeFactory (Impl ''TA'' (\<lambda>h args. False)) [''B'']) \<and>
   ''A'' \<notin> set ([]::type_list) \<and> (0::nat) < length [''B''] \<and>
   fmlookup (m_factoryList
       (RegisterType ''A'' (Impl ''TA'' (\<lambda>h args. False)) [''B''] FactoryContainer_new))
     ([''B''] ! 0) = None \<and>
   no_throw (RegisterType ''A'' (Impl ''TA'' (\<lambda>h args. False)) [''B''] FactoryContainer_new) \<and>
   resolve LeftToRight ''A''
     \<lparr>container = RegisterType ''A'' (Impl ''TA'' (\<lambda>h args. False)) [''B''] FactoryContainer_new,
      ancestor_list = [], heap = []\<rparr> =
     (Inr (Ptr 0),
      \<lparr>container = RegisterType ''A'' (Impl ''TA'' (\<lambda>h args. False)) [''B''] FactoryContainer_new,
       ancestor_list = [], heap = [\<lparr>dyn_type = ''TA'', ctor_args = [Null]\<rparr>]\<rparr>) \<and>
   (\<exists>a. Ptr 0 = Ptr a \<and>
        dyn_type ([\<lparr>dyn_type = ''TA'', ctor_args = [Null]\<rparr>] ! a) = ''TA'' \<and>
        ctor_args ([\<lparr>dyn_type = ''TA'', ctor_args = [Null]\<rparr>] ! a) ! 0 = Null)"
  using absent_dependency_reaches_constructor
    [of "\<lparr>container = RegisterType ''A'' (Impl ''TA'' (\<lambda>h args. False)) [''B'']
                        FactoryContainer_new,
          ancestor_list = [], heap = []\<rparr>"
        "''A''" "Impl ''TA'' (\<lambda>h args. False)" "[''B'']" 0 LeftToRight "Inr (Ptr 0)"
        "\<lparr>container = RegisterType ''A'' (Impl ''TA'' (\<lambda>h args. False)) [''B'']
                        FactoryContainer_new,
          ancestor_list = [], heap = [\<lparr>dyn_type = ''TA'', ctor_args = [Null]\<rparr>]\<rparr>"]
  by (simp add: resolve_eval)

section \<open>Dependency cycles\<close>








end
